theory Spec2Isabelle
  imports Complex_Main
begin

section \<open>Values of the test engine\<close>

text \<open>
  The engine works on values parsed from JSON documents and on the few extra values the
  TypeScript code itself produces (\<open>undefined\<close>, \<open>NaN\<close>).  Finite numbers are modelled as
  exact rationals: every integer of magnitude up to \<open>2^53\<close> and every small decimal
  fraction used by the code is such a number, and IEEE rounding beyond that range is
  outside this model.  An object is the list of its own enumerable properties in
  enumeration order; properties inherited from \<open>Object.prototype\<close> are outside this
  model.  Strings are lists of characters.
\<close>

datatype number = Num rat | NaN | PosInf | NegInf

datatype jv =
    JUndefined
  | JNull
  | JBool bool
  | JNum number
  | JStr string
  | JArr "jv list"
  | JObj "(string \<times> jv) list"

text \<open>What the code can throw: the built-in errors and the engine's own \<open>Error\<close>.\<close>

datatype error = TypeError | RangeError | SyntaxError | Error string

section \<open>Boundary generator: \<open>integerBoundaries\<close>\<close>


section \<open>Data loader: \<open>filterByTags\<close>\<close>

text \<open>
  A test case as the loader sees it (\<open>TestCaseRaw\<close>): a name, optional tags, and whatever
  else the runner needs, kept in the extension part of the record.
\<close>

record TestCaseRaw =
  tc_name :: string
  tc_tags :: "string list option"
  tc_skip :: "bool option"
  tc_only :: "bool option"

text \<open>
  \<^verbatim>\<open>if (!filterTags.length) return tests;
  return tests.filter((t) => t.tags?.some((tag) => filterTags.includes(tag)));\<close>
  The optional chain yields \<open>undefined\<close>, which is falsy, for a test without tags.
\<close>

definition array_includes :: "string list \<Rightarrow> string \<Rightarrow> bool" where
  "array_includes xs x = List.member xs x"

definition tags_some :: "string list option \<Rightarrow> (string \<Rightarrow> bool) \<Rightarrow> bool" where
  "tags_some ts p = (case ts of None \<Rightarrow> False | Some l \<Rightarrow> list_ex p l)"

definition filterByTags ::
  "('a TestCaseRaw_scheme) list \<Rightarrow> string list \<Rightarrow> ('a TestCaseRaw_scheme) list" where
  "filterByTags tests filterTags =
     (if length filterTags = 0 then tests
      else filter (\<lambda>t. tags_some (tc_tags t) (\<lambda>tag. array_includes filterTags tag)) tests)"

section \<open>JavaScript primitives used by the helpers\<close>

text \<open>\<^verbatim>\<open>typeof v\<close>; \<open>typeof null\<close> is \<open>"object"\<close>.\<close>

definition js_typeof :: "jv \<Rightarrow> string" where
  "js_typeof v =
     (case v of
        JUndefined \<Rightarrow> ''undefined''
      | JNull \<Rightarrow> ''object''
      | JBool _ \<Rightarrow> ''boolean''
      | JNum _ \<Rightarrow> ''number''
      | JStr _ \<Rightarrow> ''string''
      | JArr _ \<Rightarrow> ''object''
      | JObj _ \<Rightarrow> ''object'')"

definition isArray :: "jv \<Rightarrow> bool" where
  "isArray v = (case v of JArr _ \<Rightarrow> True | _ \<Rightarrow> False)"

definition elems :: "jv \<Rightarrow> jv list" where
  "elems v = (case v of JArr xs \<Rightarrow> xs | _ \<Rightarrow> [])"

text \<open>
  \<^verbatim>\<open>a === b\<close>.  Primitives are compared by value and \<open>NaN\<close> differs from itself.  Two
  containers are strictly equal only when they are one and the same object; the model
  has values, not references, and takes the two arguments of a comparison to be distinct
  objects, so that the structural part of the helpers below is what decides.
\<close>

definition strict_eq :: "jv \<Rightarrow> jv \<Rightarrow> bool" where
  "strict_eq a b =
     (case (a, b) of
        (JUndefined, JUndefined) \<Rightarrow> True
      | (JNull, JNull) \<Rightarrow> True
      | (JBool x, JBool y) \<Rightarrow> x = y
      | (JNum x, JNum y) \<Rightarrow> x \<noteq> NaN \<and> x = y
      | (JStr x, JStr y) \<Rightarrow> x = y
      | _ \<Rightarrow> False)"

text \<open>The decimal numeral of an array index, as \<open>Object.keys\<close> lists it.\<close>

definition digit_char :: "nat \<Rightarrow> char" where
  "digit_char d = ''0123456789'' ! (d mod 10)"

fun index_key :: "nat \<Rightarrow> string" where
  "index_key n = (if 10 \<le> n then index_key (n div 10) else []) @ [digit_char n]"

declare index_key.simps [simp del]

text \<open>\<^verbatim>\<open>obj[key]\<close> on a plain object: the own property, or \<open>undefined\<close>.\<close>

definition lookup :: "(string \<times> jv) list \<Rightarrow> string \<Rightarrow> jv" where
  "lookup kvs key = (case map_of kvs key of None \<Rightarrow> JUndefined | Some v \<Rightarrow> v)"

text \<open>
  \<^verbatim>\<open>arr[idx]\<close> with a number: the element when \<open>idx\<close> is an integer within the array,
  \<open>undefined\<close> otherwise (a fraction, a negative number and an infinity name no element).
\<close>

definition array_at :: "jv list \<Rightarrow> number \<Rightarrow> jv" where
  "array_at xs idx =
     (case idx of
        Num q \<Rightarrow>
          (if of_int \<lfloor>q\<rfloor> = q \<and> 0 \<le> q \<and> nat \<lfloor>q\<rfloor> < length xs then xs ! nat \<lfloor>q\<rfloor>
           else JUndefined)
      | _ \<Rightarrow> JUndefined)"

text \<open>
  \<^verbatim>\<open>arr[key]\<close> with a string: the element when \<open>key\<close> is the numeral of an index, the
  array's length when \<open>key\<close> is \<open>"length"\<close>, \<open>undefined\<close> otherwise.  A string behaves
  alike.
\<close>

definition array_get :: "jv list \<Rightarrow> string \<Rightarrow> jv" where
  "array_get xs key =
     (case find (\<lambda>i. index_key i = key) [0..<length xs] of
        Some i \<Rightarrow> xs ! i
      | None \<Rightarrow> if key = ''length'' then JNum (Num (of_nat (length xs))) else JUndefined)"

definition string_get :: "string \<Rightarrow> string \<Rightarrow> jv" where
  "string_get s key =
     (case find (\<lambda>i. index_key i = key) [0..<length s] of
        Some i \<Rightarrow> JStr [s ! i]
      | None \<Rightarrow> if key = ''length'' then JNum (Num (of_nat (length s))) else JUndefined)"

text \<open>
  Reading a property of any value.  On \<open>null\<close> and \<open>undefined\<close> JavaScript throws a
  \<open>TypeError\<close>; this is the one way a property read can fail.
\<close>

definition prop_get :: "jv \<Rightarrow> string \<Rightarrow> error + jv" where
  "prop_get v key =
     (case v of
        JUndefined \<Rightarrow> Inl TypeError
      | JNull \<Rightarrow> Inl TypeError
      | JArr xs \<Rightarrow> Inr (array_get xs key)
      | JObj kvs \<Rightarrow> Inr (lookup kvs key)
      | JStr s \<Rightarrow> Inr (string_get s key)
      | _ \<Rightarrow> Inr JUndefined)"

text \<open>\<^verbatim>\<open>Object.keys(v)\<close>.\<close>

definition object_keys :: "jv \<Rightarrow> string list" where
  "object_keys v =
     (case v of
        JArr xs \<Rightarrow> map index_key [0..<length xs]
      | JObj kvs \<Rightarrow> map fst kvs
      | JStr s \<Rightarrow> map index_key [0..<length s]
      | _ \<Rightarrow> [])"

text \<open>
  \<^verbatim>\<open>(v as Record<string, unknown>)[key]\<close> where the code has already excluded \<open>null\<close>
  and \<open>undefined\<close>.
\<close>

definition member_get :: "jv \<Rightarrow> string \<Rightarrow> jv" where
  "member_get v key = (case prop_get v key of Inl _ \<Rightarrow> JUndefined | Inr x \<Rightarrow> x)"

lemma size_elem: "x \<in> set xs \<Longrightarrow> size x < Suc (size_list size xs)"
  by (induction xs) auto

lemma size_value: "(k, v) \<in> set kvs \<Longrightarrow> size v < Suc (size_list (size_prod (\<lambda>_. 0) size) kvs)"
  by (induction kvs) auto

lemma array_get_size:
  "find (\<lambda>i. index_key i = key) [0..<length xs] = Some i \<Longrightarrow>
   size (xs ! i) < Suc (size_list size xs)"
  by (auto simp: find_Some_iff intro!: size_elem)

lemma member_get_size:
  "key \<in> set (object_keys a) \<Longrightarrow> js_typeof a = ''object'' \<Longrightarrow> a \<noteq> JNull \<Longrightarrow>
   size (member_get a key) < size a"
proof (cases a)
  case (JArr xs)
  assume "key \<in> set (object_keys a)"
  with JArr obtain i where i: "i < length xs" "key = index_key i"
    by (auto simp: object_keys_def)
  then obtain j where "find (\<lambda>i. index_key i = key) [0..<length xs] = Some j"
    by (cases "find (\<lambda>i. index_key i = key) [0..<length xs]") (auto simp: find_None_iff)
  with JArr show ?thesis
    using array_get_size [of key xs j]
    by (simp add: member_get_def prop_get_def array_get_def)
next
  case (JObj kvs)
  assume "key \<in> set (object_keys a)"
  with JObj have "key \<in> fst ` set kvs"
    by (simp add: object_keys_def)
  then have "key \<in> dom (map_of kvs)"
    by (simp add: dom_map_of_conv_image_fst)
  then obtain v where "map_of kvs key = Some v"
    by blast
  moreover from this have "(key, v) \<in> set kvs" by (rule map_of_SomeD)
  ultimately show ?thesis using JObj size_value [of key v kvs]
    by (simp add: member_get_def prop_get_def lookup_def)
qed (auto simp: js_typeof_def object_keys_def)

section \<open>Deep object utilities\<close>

subsection \<open>\<open>deepEqual\<close>\<close>

text \<open>
  \<^verbatim>\<open>if (a === b) return true;
  if (a === null || b === null) return false;
  if (typeof a !== typeof b) return false;
  if (Array.isArray(a) && Array.isArray(b)) {
    if (a.length !== b.length) return false;
    return a.every((item, i) => deepEqual(item, b[i]));
  }
  if (typeof a === 'object' && typeof b === 'object') {
    const keysA = Object.keys(a); const keysB = Object.keys(b);
    if (keysA.length !== keysB.length) return false;
    return keysA.every((key) => deepEqual(a[key], b[key]));
  }
  return false;\<close>
  When exactly one side is an array, the array branch is skipped and the object branch
  compares the array through its index keys.
\<close>

function deepEqual :: "jv \<Rightarrow> jv \<Rightarrow> bool" where
  "deepEqual a b =
     (if strict_eq a b then True
      else if a = JNull \<or> b = JNull then False
      else if js_typeof a \<noteq> js_typeof b then False
      else if isArray a \<and> isArray b then
        (if length (elems a) \<noteq> length (elems b) then False
         else list_all (\<lambda>i. deepEqual (elems a ! i) (array_at (elems b) (Num (of_nat i))))
                [0..<length (elems a)])
      else if js_typeof a = ''object'' \<and> js_typeof b = ''object'' then
        (let keysA = object_keys a; keysB = object_keys b in
         if length keysA \<noteq> length keysB then False
         else list_all (\<lambda>key. deepEqual (member_get a key) (member_get b key)) keysA)
      else False)"
  by pat_completeness auto
termination
  apply (relation "measure (\<lambda>(a, b). size a)")
  apply simp
  apply (auto simp: isArray_def elems_def split: jv.splits intro: size_elem)[1]
  apply (auto simp: member_get_size)
  done

declare deepEqual.simps [simp del]

subsection \<open>\<open>deepContains\<close>\<close>

text \<open>
  \<^verbatim>\<open>if (subset === superset) return true;
  if (subset === null || subset === undefined) return superset === subset;
  if (typeof subset !== 'object') return superset === subset;
  if (Array.isArray(subset)) {
    if (!Array.isArray(superset)) return false;
    return subset.every((item) => superset.some((sup) => deepContains(sup, item)));
  }
  if (typeof superset !== 'object' || superset === null) return false;
  return Object.keys(subObj).every((key) => deepContains(superObj[key], subObj[key]));\<close>
\<close>

function deepContains :: "jv \<Rightarrow> jv \<Rightarrow> bool" where
  "deepContains super_v sub_v =
     (if strict_eq sub_v super_v then True
      else if sub_v = JNull \<or> sub_v = JUndefined then strict_eq super_v sub_v
      else if js_typeof sub_v \<noteq> ''object'' then strict_eq super_v sub_v
      else if isArray sub_v then
        (if \<not> isArray super_v then False
         else list_all (\<lambda>item. list_ex (\<lambda>sup. deepContains sup item) (elems super_v))
                (elems sub_v))
      else if js_typeof super_v \<noteq> ''object'' \<or> super_v = JNull then False
      else list_all (\<lambda>key. deepContains (member_get super_v key) (member_get sub_v key))
             (object_keys sub_v))"
  by pat_completeness auto
termination
  apply (relation "measure (\<lambda>(a, b). size b)")
  apply simp
  apply (auto simp: isArray_def elems_def split: jv.splits intro: size_elem)[1]
  apply (auto simp: member_get_size)
  done

declare deepContains.simps [simp del]

subsection \<open>\<open>deepGet\<close>\<close>

text \<open>\<^verbatim>\<open>path.split('.')\<close>: the pieces between the dots; never an empty list.\<close>

fun split_on :: "char \<Rightarrow> string \<Rightarrow> string list" where
  "split_on c [] = [[]]"
| "split_on c (x # xs) =
     (let r = split_on c xs in if x = c then [] # r else (x # hd r) # tl r)"

text \<open>\<^verbatim>\<open>xs.reduce(f, init)\<close> with a callback that may throw.\<close>

fun reduce :: "('b \<Rightarrow> 'a \<Rightarrow> error + 'b) \<Rightarrow> 'a list \<Rightarrow> 'b \<Rightarrow> error + 'b" where
  "reduce f [] acc = Inr acc"
| "reduce f (x # xs) acc = (case f acc x of Inl e \<Rightarrow> Inl e | Inr acc' \<Rightarrow> reduce f xs acc')"

text \<open>
  \<^verbatim>\<open>if (current === null || current === undefined) return undefined;
  if (Array.isArray(current)) {
    const idx = Number(key);
    return Number.isNaN(idx) ? undefined : current[idx];
  }
  if (typeof current === 'object') return current[key];
  return undefined;\<close>
  \<open>Number\<close>, JavaScript's conversion of a string to a number, is a parameter.
\<close>

definition deepGet_step :: "(string \<Rightarrow> number) \<Rightarrow> jv \<Rightarrow> string \<Rightarrow> error + jv" where
  "deepGet_step Number_of current key =
     (if current = JNull \<or> current = JUndefined then Inr JUndefined
      else if isArray current then
        (let idx = Number_of key in
         if idx = NaN then Inr JUndefined else Inr (array_at (elems current) idx))
      else if js_typeof current = ''object'' then prop_get current key
      else Inr JUndefined)"

definition deepGet :: "(string \<Rightarrow> number) \<Rightarrow> jv \<Rightarrow> string \<Rightarrow> error + jv" where
  "deepGet Number_of obj path = reduce (deepGet_step Number_of) (split_on CHR ''.'' path) obj"

subsection \<open>Values that come from a JSON document\<close>

text \<open>
  A JSON document has no \<open>undefined\<close>, no \<open>NaN\<close> and no infinity, and the keys of an
  object are distinct.
\<close>

fun json_like :: "jv \<Rightarrow> bool" where
  "json_like JUndefined = False"
| "json_like JNull = True"
| "json_like (JBool b) = True"
| "json_like (JNum n) = (case n of Num q \<Rightarrow> True | _ \<Rightarrow> False)"
| "json_like (JStr s) = True"
| "json_like (JArr xs) = list_all json_like xs"
| "json_like (JObj kvs) = (distinct (map fst kvs) \<and> list_all json_like (map snd kvs))"

section \<open>Data loader: \<open>interpolate\<close>\<close>

text \<open>
  \<^verbatim>\<open>const INTERPOLATION_RE = /\{\{(\w+)\}\}/g;\<close>
  Without the unicode flag \<open>\w\<close> is exactly \<open>[A-Za-z0-9_]\<close>.
\<close>

definition is_word_char :: "char \<Rightarrow> bool" where
  "is_word_char c =
     (let n = (of_char c :: nat) in
      (48 \<le> n \<and> n \<le> 57) \<or> (65 \<le> n \<and> n \<le> 90) \<or> n = 95 \<or> (97 \<le> n \<and> n \<le> 122))"

text \<open>
  One attempt of the regular expression at the start of \<open>s\<close>: two opening braces, the
  longest run of word characters, which must not be empty, and two closing braces.  The
  run is greedy and giving characters back cannot help, because the character after a
  shorter run is a word character and not a brace.  The result is the captured key and
  the text after the match.
\<close>

definition match_placeholder :: "string \<Rightarrow> (string \<times> string) option" where
  "match_placeholder s =
     (case s of
        c1 # c2 # t \<Rightarrow>
          if c1 = CHR ''{'' \<and> c2 = CHR ''{'' then
            (let key = takeWhile is_word_char t; r = dropWhile is_word_char t in
             if key \<noteq> [] \<and> take 2 r = ''}}'' then Some (key, drop 2 r) else None)
          else None
      | _ \<Rightarrow> None)"

lemma match_placeholder_shorter:
  "match_placeholder s = Some (key, rest) \<Longrightarrow> length rest < length s"
proof -
  assume a: "match_placeholder s = Some (key, rest)"
  then obtain t where s: "s = CHR ''{'' # CHR ''{'' # t"
    by (auto simp: match_placeholder_def split: list.splits if_splits)
  with a have "rest = drop 2 (dropWhile is_word_char t)"
    by (auto simp: match_placeholder_def Let_def split: if_splits)
  then have "length rest \<le> length t"
    using length_dropWhile_le [of is_word_char t] by simp
  with s show ?thesis by simp
qed

text \<open>
  \<^verbatim>\<open>s.replace(INTERPOLATION_RE, (_, key) => f(key))\<close>: the global replace scans from
  the left; a match is replaced by what the callback returns, taken literally, and the
  scan goes on after the match; where there is no match, one character is copied.
\<close>

function replace_placeholders :: "(string \<Rightarrow> string) \<Rightarrow> string \<Rightarrow> string" where
  "replace_placeholders f [] = []"
| "replace_placeholders f (c # cs) =
     (case match_placeholder (c # cs) of
        Some (key, rest) \<Rightarrow> f key @ replace_placeholders f rest
      | None \<Rightarrow> c # replace_placeholders f cs)"
  by pat_completeness auto
termination
  by (relation "measure (\<lambda>(f, s). length s)") (auto dest: match_placeholder_shorter)

declare replace_placeholders.simps(2) [simp del]

text \<open>
  The callback \<^verbatim>\<open>(_, key) => vars[key] ?? `{{${key}}}`\<close>.  The variable store is a
  \<open>Record<string, string>\<close>, here the list of its entries.
\<close>

definition placeholder_value :: "(string \<times> string) list \<Rightarrow> string \<Rightarrow> string" where
  "placeholder_value vars key =
     (case map_of vars key of Some v \<Rightarrow> v | None \<Rightarrow> ''{{'' @ key @ ''}}'')"

definition interpolate_string :: "string \<Rightarrow> (string \<times> string) list \<Rightarrow> string" where
  "interpolate_string s vars = replace_placeholders (placeholder_value vars) s"

text \<open>\<^verbatim>\<open>result[k] = v\<close> on a plain object: overwrite the key, or add it at the end.\<close>

definition obj_set :: "(string \<times> jv) list \<Rightarrow> string \<Rightarrow> jv \<Rightarrow> (string \<times> jv) list" where
  "obj_set kvs k v =
     (if k \<in> fst ` set kvs then map (\<lambda>p. if fst p = k then (k, v) else p) kvs
      else kvs @ [(k, v)])"

text \<open>
  \<^verbatim>\<open>if (typeof obj === 'string') return obj.replace(INTERPOLATION_RE, ...);
  if (Array.isArray(obj)) return obj.map((item) => interpolate(item, vars));
  if (obj !== null && typeof obj === 'object') {
    const result = {};
    for (const [k, v] of Object.entries(obj)) result[k] = interpolate(v, vars);
    return result;
  }
  return obj;\<close>
  Every branch builds a new value and none assigns to \<open>obj\<close> or to \<open>vars\<close>.
\<close>

fun interpolate :: "jv \<Rightarrow> (string \<times> string) list \<Rightarrow> jv" where
  "interpolate (JStr s) vars = JStr (interpolate_string s vars)"
| "interpolate (JArr xs) vars = JArr (map (\<lambda>item. interpolate item vars) xs)"
| "interpolate (JObj kvs) vars =
     JObj (fold (\<lambda>p result. obj_set result (fst p) (interpolate (snd p) vars)) kvs [])"
| "interpolate obj vars = obj"



section \<open>Boundary generator: cases and negative payloads\<close>







text \<open>
  \<^verbatim>\<open>interface FieldSpec { name; type: 'string' | 'number' | 'email' | 'boolean' | 'integer';
    minLength?; maxLength?; min?; max?; required? }\<close>
\<close>

datatype field_type = TString | TNumber | TEmail | TBoolean | TInteger




text \<open>Sequencing of computations that may throw, and \<^verbatim>\<open>x ?? d\<close> on an optional field.\<close>

definition and_then :: "'x + 'r \<Rightarrow> ('r \<Rightarrow> 'x + 's) \<Rightarrow> 'x + 's" where
  "and_then r f = (case r of Inl e \<Rightarrow> Inl e | Inr x \<Rightarrow> f x)"








section \<open>UI runner: the action dispatcher\<close>

text \<open>
  JavaScript's conversions \<open>String(v)\<close> and \<open>Number(v)\<close> are parameters of the model.
\<close>

record js_lib =
  to_String :: "jv \<Rightarrow> string"
  to_Number :: "jv \<Rightarrow> number"









section \<open>API runner: the assertions on a response\<close>

text \<open>
  What the runner takes from libraries: the recursive equality of \<open>expect(..).toEqual\<close>,
  the schema compiler of Ajv (it throws on a schema it cannot compile, and otherwise
  gives a validator returning the verdict and the formatted errors) and regular
  expressions (\<open>new RegExp\<close> throws on a pattern it cannot parse).
\<close>

record api_lib = js_lib +
  toEqual :: "jv \<Rightarrow> jv \<Rightarrow> bool"
  ajv_compile :: "jv \<Rightarrow> error + (jv \<Rightarrow> bool \<times> string list)"
  regex_test :: "string \<Rightarrow> string \<Rightarrow> error + bool"

text \<open>
  \<open>ApiExpectation\<close> and its \<open>bodyPath\<close> entries, with the field types of the source; a
  field of type \<open>unknown\<close> is \<open>undefined\<close> when absent.  The observed response is its
  status, its headers (names in lower case, as the library gives them), its body and
  the elapsed time.
\<close>

record BodyPath =
  bp_path :: string
  bp_equals :: jv
  bp_contains :: jv
  bp_type :: "string option"
  bp_minLength :: "rat option"
  bp_maxLength :: "rat option"
  bp_regex :: "string option"

record ApiExpectation =
  ex_status :: "rat option"
  ex_statusRange :: "(rat \<times> rat) option"
  ex_bodyContains :: "(string \<times> jv) list option"
  ex_bodyExact :: jv
  ex_bodySchema :: "jv option"
  ex_bodyPath :: "BodyPath list option"
  ex_headers :: "(string \<times> string) list option"
  ex_responseTime :: "rat option"

record Response =
  rs_status :: rat
  rs_headers :: "(string \<times> string) list"
  rs_body :: jv
  rs_elapsed :: rat

text \<open>
  A failing \<open>expect\<close> throws; so does a library call or a property read that fails.
  \<open>check\<close> names the \<open>expect\<close> call that threw.
\<close>

datatype check =
    CStatus | CStatusRangeMin | CStatusRangeMax | CBodyContains | CBodyExact | CBodySchema
  | CPathEquals string | CPathContains string | CPathType string | CPathMinLength string
  | CPathMaxLength string | CPathRegex string | CHeader string | CResponseTime

datatype failure = Expect check | Thrown error

definition expect_that :: "check \<Rightarrow> bool \<Rightarrow> failure + unit" where
  "expect_that c ok = (if ok then Inr () else Inl (Expect c))"

text \<open>
  \<open>\<le>\<close> on JavaScript numbers, and the numeric matchers \<open>toBeGreaterThanOrEqual\<close> and
  \<open>toBeLessThanOrEqual\<close>, which fail on a received value that is not a number.
\<close>

definition num_le :: "number \<Rightarrow> number \<Rightarrow> bool" where
  "num_le a b =
     (case (a, b) of
        (NaN, _) \<Rightarrow> False
      | (_, NaN) \<Rightarrow> False
      | (NegInf, _) \<Rightarrow> True
      | (_, PosInf) \<Rightarrow> True
      | (Num x, Num y) \<Rightarrow> x \<le> y
      | _ \<Rightarrow> False)"

definition expect_number :: "check \<Rightarrow> jv \<Rightarrow> (number \<Rightarrow> bool) \<Rightarrow> failure + unit" where
  "expect_number c received p =
     (case received of JNum n \<Rightarrow> expect_that c (p n) | _ \<Rightarrow> Inl (Expect c))"

text \<open>\<^verbatim>\<open>key.toLowerCase()\<close>, on the letters of ASCII.\<close>

definition to_lower_char :: "char \<Rightarrow> char" where
  "to_lower_char c =
     (let n = (of_char c :: nat) in if 65 \<le> n \<and> n \<le> 90 then char_of (n + 32) else c)"

definition toLowerCase :: "string \<Rightarrow> string" where
  "toLowerCase s = map to_lower_char s"

text \<open>
  \<^verbatim>\<open>const validate = ajv.compile(schema);
  const valid = validate(data) as boolean;
  const errors = valid ? [] : (validate.errors ?? []).map(...);
  return { valid, errors };\<close>
\<close>

definition validateAgainstSchema ::
  "'a api_lib_scheme \<Rightarrow> jv \<Rightarrow> jv \<Rightarrow> error + (bool \<times> string list)" where
  "validateAgainstSchema lib data schema =
     (case ajv_compile lib schema of
        Inl e \<Rightarrow> Inl e
      | Inr validate \<Rightarrow>
          (let valid = fst (validate data);
               errors = (if valid then [] else snd (validate data))
           in Inr (valid, errors)))"

text \<open>
  The assertions of the test function, one definition for each \<open>if\<close> of the source:
  \<^verbatim>\<open>if (exp.status !== undefined) expect(response.status()).toBe(exp.status);
  if (exp.statusRange) {
    expect(response.status()).toBeGreaterThanOrEqual(exp.statusRange.min);
    expect(response.status()).toBeLessThanOrEqual(exp.statusRange.max);
  }
  if (exp.bodyContains) expect(deepContains(responseBody, exp.bodyContains)).toBe(true);
  if (exp.bodyExact !== undefined) expect(deepEqual(responseBody, exp.bodyExact)).toBe(true);
  if (exp.bodySchema) {
    const result = validateAgainstSchema(responseBody, exp.bodySchema);
    expect(result.valid).toBe(true);
  }\<close>
\<close>

definition assert_status :: "ApiExpectation \<Rightarrow> Response \<Rightarrow> failure + unit" where
  "assert_status ex rs =
     (case ex_status ex of
        None \<Rightarrow> Inr ()
      | Some s \<Rightarrow> expect_that CStatus (rs_status rs = s))"

definition assert_statusRange :: "ApiExpectation \<Rightarrow> Response \<Rightarrow> failure + unit" where
  "assert_statusRange ex rs =
     (case ex_statusRange ex of
        None \<Rightarrow> Inr ()
      | Some (mn, mx) \<Rightarrow>
          and_then (expect_that CStatusRangeMin (mn \<le> rs_status rs))
            (\<lambda>_. expect_that CStatusRangeMax (rs_status rs \<le> mx)))"

definition assert_bodyContains :: "ApiExpectation \<Rightarrow> Response \<Rightarrow> failure + unit" where
  "assert_bodyContains ex rs =
     (case ex_bodyContains ex of
        None \<Rightarrow> Inr ()
      | Some expected \<Rightarrow> expect_that CBodyContains (deepContains (rs_body rs) (JObj expected)))"

definition assert_bodyExact :: "ApiExpectation \<Rightarrow> Response \<Rightarrow> failure + unit" where
  "assert_bodyExact ex rs =
     (if ex_bodyExact ex \<noteq> JUndefined
      then expect_that CBodyExact (deepEqual (rs_body rs) (ex_bodyExact ex))
      else Inr ())"

definition assert_bodySchema ::
  "'a api_lib_scheme \<Rightarrow> ApiExpectation \<Rightarrow> Response \<Rightarrow> failure + unit" where
  "assert_bodySchema lib ex rs =
     (case ex_bodySchema ex of
        None \<Rightarrow> Inr ()
      | Some schema \<Rightarrow>
          (case validateAgainstSchema lib (rs_body rs) schema of
             Inl e \<Rightarrow> Inl (Thrown e)
           | Inr result \<Rightarrow> expect_that CBodySchema (fst result)))"

text \<open>
  \<^verbatim>\<open>for (const bp of exp.bodyPath) {
    const actual = deepGet(responseBody, bp.path);
    if (bp.equals !== undefined) expect(actual).toEqual(bp.equals);
    if (bp.contains !== undefined) expect(deepContains(actual, bp.contains)).toBe(true);
    if (bp.type) expect(typeof actual).toBe(bp.type);
    if (bp.minLength !== undefined) expect(actual.length).toBeGreaterThanOrEqual(bp.minLength);
    if (bp.maxLength !== undefined) expect(actual.length).toBeLessThanOrEqual(bp.maxLength);
    if (bp.regex) expect(String(actual)).toMatch(new RegExp(bp.regex));
  }\<close>
  \<open>bp.type\<close> and \<open>bp.regex\<close> are tested for truth, so an empty string counts as absent.
  Reading \<open>actual.length\<close> throws a \<open>TypeError\<close> when \<open>actual\<close> is \<open>null\<close> or
  \<open>undefined\<close>.
\<close>

definition path_equals :: "'a api_lib_scheme \<Rightarrow> jv \<Rightarrow> BodyPath \<Rightarrow> failure + unit" where
  "path_equals lib actual bp =
     (if bp_equals bp \<noteq> JUndefined
      then expect_that (CPathEquals (bp_path bp)) (toEqual lib actual (bp_equals bp))
      else Inr ())"

definition path_contains :: "jv \<Rightarrow> BodyPath \<Rightarrow> failure + unit" where
  "path_contains actual bp =
     (if bp_contains bp \<noteq> JUndefined
      then expect_that (CPathContains (bp_path bp)) (deepContains actual (bp_contains bp))
      else Inr ())"

definition path_type :: "jv \<Rightarrow> BodyPath \<Rightarrow> failure + unit" where
  "path_type actual bp =
     (case bp_type bp of
        None \<Rightarrow> Inr ()
      | Some t \<Rightarrow>
          if t \<noteq> [] then expect_that (CPathType (bp_path bp)) (js_typeof actual = t)
          else Inr ())"

definition path_minLength :: "jv \<Rightarrow> BodyPath \<Rightarrow> failure + unit" where
  "path_minLength actual bp =
     (case bp_minLength bp of
        None \<Rightarrow> Inr ()
      | Some m \<Rightarrow>
          (case prop_get actual ''length'' of
             Inl e \<Rightarrow> Inl (Thrown e)
           | Inr len \<Rightarrow> expect_number (CPathMinLength (bp_path bp)) len (\<lambda>n. num_le (Num m) n)))"

definition path_maxLength :: "jv \<Rightarrow> BodyPath \<Rightarrow> failure + unit" where
  "path_maxLength actual bp =
     (case bp_maxLength bp of
        None \<Rightarrow> Inr ()
      | Some m \<Rightarrow>
          (case prop_get actual ''length'' of
             Inl e \<Rightarrow> Inl (Thrown e)
           | Inr len \<Rightarrow> expect_number (CPathMaxLength (bp_path bp)) len (\<lambda>n. num_le n (Num m))))"

definition path_regex :: "'a api_lib_scheme \<Rightarrow> jv \<Rightarrow> BodyPath \<Rightarrow> failure + unit" where
  "path_regex lib actual bp =
     (case bp_regex bp of
        None \<Rightarrow> Inr ()
      | Some r \<Rightarrow>
          if r \<noteq> [] then
            (case regex_test lib r (to_String lib actual) of
               Inl e \<Rightarrow> Inl (Thrown e)
             | Inr ok \<Rightarrow> expect_that (CPathRegex (bp_path bp)) ok)
          else Inr ())"

definition path_actual :: "'a api_lib_scheme \<Rightarrow> jv \<Rightarrow> BodyPath \<Rightarrow> error + jv" where
  "path_actual lib body bp = deepGet (\<lambda>key. to_Number lib (JStr key)) body (bp_path bp)"

definition assert_path :: "'a api_lib_scheme \<Rightarrow> jv \<Rightarrow> BodyPath \<Rightarrow> failure + unit" where
  "assert_path lib body bp =
     (case path_actual lib body bp of
        Inl e \<Rightarrow> Inl (Thrown e)
      | Inr actual \<Rightarrow>
          and_then (path_equals lib actual bp) (\<lambda>_.
          and_then (path_contains actual bp) (\<lambda>_.
          and_then (path_type actual bp) (\<lambda>_.
          and_then (path_minLength actual bp) (\<lambda>_.
          and_then (path_maxLength actual bp) (\<lambda>_.
          path_regex lib actual bp))))))"

fun assert_paths :: "'a api_lib_scheme \<Rightarrow> jv \<Rightarrow> BodyPath list \<Rightarrow> failure + unit" where
  "assert_paths lib body [] = Inr ()"
| "assert_paths lib body (bp # bps) =
     and_then (assert_path lib body bp) (\<lambda>_. assert_paths lib body bps)"

definition assert_bodyPath ::
  "'a api_lib_scheme \<Rightarrow> ApiExpectation \<Rightarrow> Response \<Rightarrow> failure + unit" where
  "assert_bodyPath lib ex rs =
     (case ex_bodyPath ex of
        None \<Rightarrow> Inr ()
      | Some bps \<Rightarrow> assert_paths lib (rs_body rs) bps)"

text \<open>
  \<^verbatim>\<open>if (exp.headers) {
    const respHeaders = response.headers();
    for (const [key, expected] of Object.entries(exp.headers))
      expect(respHeaders[key.toLowerCase()]).toBe(expected);
  }
  if (exp.responseTime) expect(elapsed).toBeLessThanOrEqual(exp.responseTime);\<close>
  \<open>exp.responseTime\<close> is tested for truth, so a maximum of \<open>0\<close> counts as absent.
\<close>

definition assert_header :: "(string \<times> string) list \<Rightarrow> string \<times> string \<Rightarrow> failure + unit" where
  "assert_header respHeaders entry =
     expect_that (CHeader (fst entry))
       (map_of respHeaders (toLowerCase (fst entry)) = Some (snd entry))"

fun assert_header_entries ::
  "(string \<times> string) list \<Rightarrow> (string \<times> string) list \<Rightarrow> failure + unit" where
  "assert_header_entries respHeaders [] = Inr ()"
| "assert_header_entries respHeaders (entry # entries) =
     and_then (assert_header respHeaders entry)
       (\<lambda>_. assert_header_entries respHeaders entries)"

definition assert_headers :: "ApiExpectation \<Rightarrow> Response \<Rightarrow> failure + unit" where
  "assert_headers ex rs =
     (case ex_headers ex of
        None \<Rightarrow> Inr ()
      | Some entries \<Rightarrow> assert_header_entries (rs_headers rs) entries)"

definition assert_responseTime :: "ApiExpectation \<Rightarrow> Response \<Rightarrow> failure + unit" where
  "assert_responseTime ex rs =
     (case ex_responseTime ex of
        None \<Rightarrow> Inr ()
      | Some t \<Rightarrow>
          if t \<noteq> 0 then expect_that CResponseTime (rs_elapsed rs \<le> t) else Inr ())"

text \<open>
  The assertion block of the test function: the statements above one after the other.
  A statement that throws ends the function, so the ones after it do not run.
\<close>

definition run_assertions ::
  "'a api_lib_scheme \<Rightarrow> ApiExpectation \<Rightarrow> Response \<Rightarrow> failure + unit" where
  "run_assertions lib ex rs =
     and_then (assert_status ex rs) (\<lambda>_.
     and_then (assert_statusRange ex rs) (\<lambda>_.
     and_then (assert_bodyContains ex rs) (\<lambda>_.
     and_then (assert_bodyExact ex rs) (\<lambda>_.
     and_then (assert_bodySchema lib ex rs) (\<lambda>_.
     and_then (assert_bodyPath lib ex rs) (\<lambda>_.
     and_then (assert_headers ex rs) (\<lambda>_.
     assert_responseTime ex rs)))))))"


subsection \<open>The assertions as the specification describes them\<close>

text \<open>
  The specification lets every present key activate an assertion and evaluates them
  independently of each other.  \<open>spec_outcomes\<close> is that reading: the outcome of every
  assertion, each on its own, in the order of the keys; an absent key passes.  For
  \<open>type\<close>, \<open>regex\<close> and \<open>responseTime\<close> a key is present when it is given, whatever
  its value.  The single assertions are those of the source.
\<close>

definition spec_path_type :: "jv \<Rightarrow> BodyPath \<Rightarrow> failure + unit" where
  "spec_path_type actual bp =
     (case bp_type bp of
        None \<Rightarrow> Inr ()
      | Some t \<Rightarrow> expect_that (CPathType (bp_path bp)) (js_typeof actual = t))"

definition spec_path_regex :: "'a api_lib_scheme \<Rightarrow> jv \<Rightarrow> BodyPath \<Rightarrow> failure + unit" where
  "spec_path_regex lib actual bp =
     (case bp_regex bp of
        None \<Rightarrow> Inr ()
      | Some r \<Rightarrow>
          (case regex_test lib r (to_String lib actual) of
             Inl e \<Rightarrow> Inl (Thrown e)
           | Inr ok \<Rightarrow> expect_that (CPathRegex (bp_path bp)) ok))"

definition spec_responseTime :: "ApiExpectation \<Rightarrow> Response \<Rightarrow> failure + unit" where
  "spec_responseTime ex rs =
     (case ex_responseTime ex of
        None \<Rightarrow> Inr ()
      | Some t \<Rightarrow> expect_that CResponseTime (rs_elapsed rs \<le> t))"

definition spec_path_outcomes ::
  "'a api_lib_scheme \<Rightarrow> jv \<Rightarrow> BodyPath \<Rightarrow> (failure + unit) list" where
  "spec_path_outcomes lib body bp =
     (case path_actual lib body bp of
        Inl e \<Rightarrow> [Inl (Thrown e)]
      | Inr actual \<Rightarrow>
          [path_equals lib actual bp, path_contains actual bp, spec_path_type actual bp,
           path_minLength actual bp, path_maxLength actual bp, spec_path_regex lib actual bp])"

definition spec_outcomes ::
  "'a api_lib_scheme \<Rightarrow> ApiExpectation \<Rightarrow> Response \<Rightarrow> (failure + unit) list" where
  "spec_outcomes lib ex rs =
     [assert_status ex rs, assert_statusRange ex rs, assert_bodyContains ex rs,
      assert_bodyExact ex rs, assert_bodySchema lib ex rs]
     @ (case ex_bodyPath ex of
          None \<Rightarrow> []
        | Some bps \<Rightarrow> concat (map (spec_path_outcomes lib (rs_body rs)) bps))
     @ (case ex_headers ex of
          None \<Rightarrow> []
        | Some entries \<Rightarrow> map (assert_header (rs_headers rs)) entries)
     @ [spec_responseTime ex rs]"

text \<open>The failures among a list of outcomes, and the failure that a run reports.\<close>

fun failures_of :: "(failure + unit) list \<Rightarrow> failure list" where
  "failures_of [] = []"
| "failures_of (Inl f # outs) = f # failures_of outs"
| "failures_of (Inr u # outs) = failures_of outs"

definition reported_failures :: "failure + unit \<Rightarrow> failure list" where
  "reported_failures r = (case r of Inl f \<Rightarrow> [f] | Inr u \<Rightarrow> [])"

definition body_paths :: "ApiExpectation \<Rightarrow> BodyPath list" where
  "body_paths ex = (case ex_bodyPath ex of None \<Rightarrow> [] | Some bps \<Rightarrow> bps)"

text \<open>A library instance for the concrete runs below.\<close>

definition example_lib :: api_lib where
  "example_lib =
     \<lparr>to_String = (\<lambda>v. []), to_Number = (\<lambda>v. NaN), toEqual = (\<lambda>a b. a = b),
      ajv_compile = (\<lambda>schema. Inl SyntaxError), regex_test = (\<lambda>r s. Inr True)\<rparr>"

text \<open>Evaluating a list of outcomes up to the first failure.\<close>

fun first_failure :: "(failure + unit) list \<Rightarrow> failure + unit" where
  "first_failure [] = Inr ()"
| "first_failure (r # rs) = and_then r (\<lambda>_. first_failure rs)"

section \<open>Properties of \<open>integerBoundaries\<close>\<close>



section \<open>Properties of \<open>filterByTags\<close>\<close>

lemma tags_some_iff:
  "tags_some ts (\<lambda>tag. array_includes ft tag) =
     (\<exists>l. ts = Some l \<and> (\<exists>tag \<in> set l. tag \<in> set ft))"
  by (cases ts) (auto simp: tags_some_def array_includes_def list_ex_iff)

text \<open>
  Claim C5.  With an empty requested tag list \<open>filterByTags\<close> returns the test list
  unchanged.  With a non-empty one it returns, in the original order, exactly the tests
  that declare at least one tag of the requested list, and a test that declares no tags
  is not in the result.
\<close>

theorem filterByTags_spec:
  "filterByTags tests [] = tests
   \<and> (ft \<noteq> [] \<longrightarrow>
        filterByTags tests ft =
          filter (\<lambda>t. \<exists>l. tc_tags t = Some l \<and> (\<exists>tag \<in> set l. tag \<in> set ft)) tests)
   \<and> (ft \<noteq> [] \<longrightarrow> tc_tags t = None \<longrightarrow> t \<notin> set (filterByTags tests ft))
   \<and> (ft \<noteq> [] \<longrightarrow> tc_tags t = Some [] \<longrightarrow> t \<notin> set (filterByTags tests ft))"
  by (auto simp: filterByTags_def tags_some_iff)

theorem filterByTags_spec_witness:
  "filterByTags
     [\<lparr>tc_name = ''a'', tc_tags = Some [''smoke''], tc_skip = None, tc_only = None\<rparr>,
      \<lparr>tc_name = ''b'', tc_tags = None, tc_skip = None, tc_only = None\<rparr>,
      \<lparr>tc_name = ''c'', tc_tags = Some [''api'', ''slow''], tc_skip = None, tc_only = None\<rparr>]
     [''slow'', ''smoke'']
   = [\<lparr>tc_name = ''a'', tc_tags = Some [''smoke''], tc_skip = None, tc_only = None\<rparr>,
      \<lparr>tc_name = ''c'', tc_tags = Some [''api'', ''slow''], tc_skip = None, tc_only = None\<rparr>]"
  using filterByTags_spec
    [of "[\<lparr>tc_name = ''a'', tc_tags = Some [''smoke''], tc_skip = None, tc_only = None\<rparr>,
          \<lparr>tc_name = ''b'', tc_tags = None, tc_skip = None, tc_only = None\<rparr>,
          \<lparr>tc_name = ''c'', tc_tags = Some [''api'', ''slow''], tc_skip = None, tc_only = None\<rparr>]"
        "[''slow'', ''smoke'']"]
  by simp

section \<open>Properties of \<open>deepGet\<close>\<close>












section \<open>Properties of \<open>deepEqual\<close>\<close>

lemma deepEqual_JArr:
  "deepEqual (JArr xs) (JArr ys) =
     (length xs = length ys \<and> (\<forall>i < length xs. deepEqual (xs ! i) (ys ! i)))"
  by (subst deepEqual.simps)
     (auto simp: strict_eq_def js_typeof_def isArray_def elems_def array_at_def list_all_iff)

lemma deepEqual_JObj:
  "deepEqual (JObj kvs) (JObj kvs') =
     (length kvs = length kvs' \<and>
      (\<forall>k \<in> fst ` set kvs. deepEqual (lookup kvs k) (lookup kvs' k)))"
  by (subst deepEqual.simps)
     (auto simp: strict_eq_def js_typeof_def isArray_def object_keys_def member_get_def
        prop_get_def list_all_iff Let_def)

lemma lookup_in_values:
  "k \<in> fst ` set kvs \<Longrightarrow> lookup kvs k \<in> snd ` set kvs"
proof -
  assume "k \<in> fst ` set kvs"
  then have "k \<in> dom (map_of kvs)" by (simp add: dom_map_of_conv_image_fst)
  then obtain v where v: "map_of kvs k = Some v" by blast
  then have "(k, v) \<in> set kvs" by (rule map_of_SomeD)
  then have "v \<in> snd ` set kvs" by force
  with v show ?thesis by (simp add: lookup_def)
qed

text \<open>
  The reflexive part of claim C7 holds: a value that comes from a JSON document is
  \<open>deepEqual\<close> to a structurally identical value (and to itself at once, by \<open>===\<close>).
\<close>

lemma deepEqual_refl: "json_like v \<Longrightarrow> deepEqual v v"
proof (induction v)
  case (JArr xs)
  then show ?case by (auto simp: deepEqual_JArr list_all_iff)
next
  case (JObj kvs)
  have "deepEqual (lookup kvs k) (lookup kvs k)" if "k \<in> fst ` set kvs" for k
  proof -
    from that have m: "lookup kvs k \<in> snd ` set kvs" by (rule lookup_in_values)
    then obtain p where p: "p \<in> set kvs" "lookup kvs k = snd p" by auto
    from JObj.prems m have "json_like (lookup kvs k)" by (auto simp: list_all_iff)
    with JObj.IH [of p "snd p"] p show ?thesis
      by (cases p) auto
  qed
  then show ?case by (simp add: deepEqual_JObj)
qed (subst deepEqual.simps, simp add: strict_eq_def split: number.splits)+

text \<open>The example of claim C7: \<open>deepEqual({a:1,b:2},{a:1})\<close> is false.\<close>

lemma deepEqual_extra_key:
  "\<not> deepEqual (JObj [(''a'', JNum (Num 1)), (''b'', JNum (Num 2))]) (JObj [(''a'', JNum (Num 1))])"
  by (simp add: deepEqual_JObj)

text \<open>
  Claim C7 says that \<open>deepEqual\<close> is reflexive and symmetric on all JSON-like values.
  Symmetry fails where an array meets an object that is not an array: the code then
  compares through \<open>Object.keys\<close>, and an array answers the key \<open>"length"\<close> although
  \<open>Object.keys\<close> does not list it.  So \<open>deepEqual({"length": 1}, [1])\<close> is true and
  \<open>deepEqual([1], {"length": 1})\<close> is false.
\<close>

theorem deepEqual_asymmetric:
  "deepEqual (JObj [(''length'', JNum (Num 1))]) (JArr [JNum (Num 1)])
   \<and> \<not> deepEqual (JArr [JNum (Num 1)]) (JObj [(''length'', JNum (Num 1))])"
  by code_simp

section \<open>Properties of \<open>interpolate\<close>\<close>

lemma replace_none:
  "match_placeholder (c # cs) = None \<Longrightarrow>
   replace_placeholders f (c # cs) = c # replace_placeholders f cs"
  by (simp add: replace_placeholders.simps(2))

lemma replace_some:
  "match_placeholder (c # cs) = Some (k, r) \<Longrightarrow>
   replace_placeholders f (c # cs) = f k @ replace_placeholders f r"
  by (simp add: replace_placeholders.simps(2))

lemma not_word_braces [simp]:
  "\<not> is_word_char CHR ''{''" "\<not> is_word_char CHR ''}''"
  by (simp_all add: is_word_char_def)

lemma match_placeholder_not_brace:
  "c \<noteq> CHR ''{'' \<Longrightarrow> match_placeholder (c # cs) = None"
  by (simp add: match_placeholder_def split: list.splits)

lemma replace_copy_char:
  "c \<noteq> CHR ''{'' \<Longrightarrow> replace_placeholders f (c # cs) = c # replace_placeholders f cs"
  by (simp add: match_placeholder_not_brace replace_none)

lemma replace_copy_prefix:
  "CHR ''{'' \<notin> set xs \<Longrightarrow> replace_placeholders f (xs @ ys) = xs @ replace_placeholders f ys"
  by (induction xs) (auto simp: replace_copy_char)


lemma match_placeholder_extend:
  assumes "match_placeholder s = Some (k, r)"
  shows "match_placeholder (s @ u) = Some (k, r @ u)"
proof -
  from assms obtain t where s: "s = CHR ''{'' # CHR ''{'' # t"
    by (auto simp: match_placeholder_def split: list.splits if_splits)
  with assms have k: "k = takeWhile is_word_char t" "k \<noteq> []"
    and r2: "take 2 (dropWhile is_word_char t) = ''}}''"
    and r: "r = drop 2 (dropWhile is_word_char t)"
    by (auto simp: match_placeholder_def Let_def split: if_splits)
  have "\<not> (\<forall>x \<in> set t. is_word_char x)"
  proof
    assume "\<forall>x \<in> set t. is_word_char x"
    then have "dropWhile is_word_char t = []" by simp
    with r2 show False by simp
  qed
  then obtain x where x: "x \<in> set t" "\<not> is_word_char x" by blast
  have t: "takeWhile is_word_char (t @ u) = takeWhile is_word_char t"
    using x by (rule takeWhile_append1)
  have d: "dropWhile is_word_char (t @ u) = dropWhile is_word_char t @ u"
    using x by (rule dropWhile_append1)
  have l: "2 \<le> length (dropWhile is_word_char t)"
  proof (rule ccontr)
    assume "\<not> 2 \<le> length (dropWhile is_word_char t)"
    then have "length (take 2 (dropWhile is_word_char t)) < 2" by simp
    with r2 show False by simp
  qed
  show ?thesis
    using k r2 r l by (simp add: s match_placeholder_def t d Let_def)
qed

lemma match_placeholder_none_extend:
  assumes "s \<noteq> []" "match_placeholder s = None"
  shows "match_placeholder (s @ CHR ''{'' # CHR ''{'' # u) = None"
proof (cases s)
  case Nil
  with assms show ?thesis by simp
next
  case (Cons c1 s1)
  show ?thesis
  proof (cases s1)
    case Nil
    with Cons show ?thesis by (simp add: match_placeholder_def)
  next
    case (Cons c2 t)
    note s = \<open>s = c1 # s1\<close> Cons
    show ?thesis
    proof (cases "c1 = CHR ''{'' \<and> c2 = CHR ''{''")
      case False
      with s show ?thesis by (auto simp: match_placeholder_def)
    next
      case True
      show ?thesis
      proof (cases "\<exists>x \<in> set t. \<not> is_word_char x")
        case True
        then obtain x where x: "x \<in> set t" "\<not> is_word_char x" by blast
        have tk: "takeWhile is_word_char (t @ CHR ''{'' # CHR ''{'' # u) = takeWhile is_word_char t"
          using x by (rule takeWhile_append1)
        have dr: "dropWhile is_word_char (t @ CHR ''{'' # CHR ''{'' # u)
                  = dropWhile is_word_char t @ CHR ''{'' # CHR ''{'' # u"
          using x by (rule dropWhile_append1)
        from x have ne: "dropWhile is_word_char t \<noteq> []"
          by auto
        from assms(2) s \<open>c1 = CHR ''{'' \<and> c2 = CHR ''{''\<close>
        have "takeWhile is_word_char t = [] \<or> take 2 (dropWhile is_word_char t) \<noteq> ''}}''"
          by (auto simp: match_placeholder_def Let_def split: if_splits)
        then show ?thesis
        proof
          assume "takeWhile is_word_char t = []"
          with s \<open>c1 = CHR ''{'' \<and> c2 = CHR ''{''\<close> show ?thesis
            by (simp add: match_placeholder_def tk)
        next
          assume n: "take 2 (dropWhile is_word_char t) \<noteq> ''}}''"
          have "take 2 (dropWhile is_word_char t @ CHR ''{'' # CHR ''{'' # u) \<noteq> ''}}''"
          proof (cases "dropWhile is_word_char t")
            case Nil
            with ne show ?thesis by simp
          next
            case (Cons y ys)
            with n show ?thesis by (cases ys) auto
          qed
          with s \<open>c1 = CHR ''{'' \<and> c2 = CHR ''{''\<close> show ?thesis
            by (simp add: match_placeholder_def tk dr)
        qed
      next
        case False
        then have all: "\<forall>x \<in> set t. is_word_char x" by blast
        have dr: "dropWhile is_word_char (t @ CHR ''{'' # CHR ''{'' # u) = CHR ''{'' # CHR ''{'' # u"
          using all by simp
        with s \<open>c1 = CHR ''{'' \<and> c2 = CHR ''{''\<close> show ?thesis
          by (simp add: match_placeholder_def)
      qed
    qed
  qed
qed

lemma replace_append_open:
  "replace_placeholders f (pre @ CHR ''{'' # CHR ''{'' # u)
   = replace_placeholders f pre @ replace_placeholders f (CHR ''{'' # CHR ''{'' # u)"
proof (induction f pre rule: replace_placeholders.induct)
  case (1 f)
  show ?case by simp
next
  case (2 f c cs)
  let ?u = "CHR ''{'' # CHR ''{'' # u"
  show ?case
  proof (cases "match_placeholder (c # cs)")
    case None
    have n: "match_placeholder (c # (cs @ ?u)) = None"
      using match_placeholder_none_extend [of "c # cs" u] None by simp
    have ih: "replace_placeholders f (cs @ ?u)
              = replace_placeholders f cs @ replace_placeholders f ?u"
      using "2.IH"(1) [OF None] .
    show ?thesis
      by (simp only: append_Cons replace_none [OF None] replace_none [OF n] ih)
  next
    case (Some kr)
    obtain k r where kr: "kr = (k, r)" by (cases kr)
    have m: "match_placeholder (c # cs) = Some (k, r)"
      using Some kr by simp
    have m': "match_placeholder (c # (cs @ ?u)) = Some (k, r @ ?u)"
      using match_placeholder_extend [OF m, of ?u] by simp
    have ih: "replace_placeholders f (r @ ?u)
              = replace_placeholders f r @ replace_placeholders f ?u"
      using "2.IH"(2) [OF Some, of k r] kr by simp
    show ?thesis
      by (simp only: append_Cons replace_some [OF m] replace_some [OF m'] ih append_assoc)
  qed
qed

lemma match_placeholder_non_word:
  assumes "CHR ''}'' \<notin> set inner" "\<exists>c \<in> set inner. \<not> is_word_char c"
  shows "match_placeholder (CHR ''{'' # CHR ''{'' # inner @ CHR ''}'' # CHR ''}'' # post) = None"
proof -
  let ?rest = "CHR ''}'' # CHR ''}'' # post"
  from assms(2) obtain x where x: "x \<in> set inner" "\<not> is_word_char x" by blast
  have d: "dropWhile is_word_char (inner @ ?rest) = dropWhile is_word_char inner @ ?rest"
    using x by (rule dropWhile_append1)
  from x have ne: "dropWhile is_word_char inner \<noteq> []" by auto
  then obtain y ys where y: "dropWhile is_word_char inner = y # ys"
    by (cases "dropWhile is_word_char inner") auto
  then have "y \<in> set inner"
    by (metis list.set_intros(1) set_dropWhileD)
  with assms(1) have "y \<noteq> CHR ''}''" by auto
  then have "take 2 (dropWhile is_word_char (inner @ ?rest)) \<noteq> ''}}''"
    by (simp add: d y)
  then show ?thesis
    by (simp add: match_placeholder_def Let_def)
qed

lemma replace_non_word:
  assumes "CHR ''{'' \<notin> set inner" "CHR ''}'' \<notin> set inner" "\<exists>c \<in> set inner. \<not> is_word_char c"
  shows "replace_placeholders f (CHR ''{'' # CHR ''{'' # inner @ CHR ''}'' # CHR ''}'' # post)
         = CHR ''{'' # CHR ''{'' # inner @ CHR ''}'' # CHR ''}'' # replace_placeholders f post"
proof -
  let ?rest = "CHR ''}'' # CHR ''}'' # post"
  have a: "match_placeholder (CHR ''{'' # CHR ''{'' # inner @ ?rest) = None"
    using assms(2,3) by (rule match_placeholder_non_word)
  from assms(3) obtain c cs where inner: "inner = c # cs" by (cases inner) auto
  with assms(1) have "c \<noteq> CHR ''{''" by auto
  then have b: "match_placeholder (CHR ''{'' # inner @ ?rest) = None"
    by (simp add: inner match_placeholder_def)
  have c: "replace_placeholders f (inner @ ?rest) = inner @ replace_placeholders f ?rest"
    using assms(1) by (rule replace_copy_prefix)
  have d: "replace_placeholders f ?rest = CHR ''}'' # CHR ''}'' # replace_placeholders f post"
    by (simp add: replace_copy_char)
  show ?thesis
    by (simp only: replace_none [OF a] replace_none [OF b] c d)
qed

lemma match_placeholder_decompose:
  assumes "match_placeholder s = Some (k, r)"
  shows "s = ''{{'' @ k @ ''}}'' @ r"
proof -
  from assms obtain t where s: "s = CHR ''{'' # CHR ''{'' # t"
    by (auto simp: match_placeholder_def split: list.splits if_splits)
  with assms have k: "k = takeWhile is_word_char t"
    and r2: "take 2 (dropWhile is_word_char t) = ''}}''"
    and r: "r = drop 2 (dropWhile is_word_char t)"
    by (auto simp: match_placeholder_def Let_def split: if_splits)
  have "t = takeWhile is_word_char t @ dropWhile is_word_char t" by simp
  also have "dropWhile is_word_char t = take 2 (dropWhile is_word_char t) @ drop 2 (dropWhile is_word_char t)"
    by simp
  finally have "t = k @ ''}}'' @ r" using k r2 r by simp
  with s show ?thesis by simp
qed



lemma match_placeholder_key:
  assumes "match_placeholder s = Some (k, r)"
  shows "k \<noteq> [] \<and> (\<forall>c \<in> set k. is_word_char c)"
proof -
  from assms obtain t where s: "s = CHR ''{'' # CHR ''{'' # t"
    by (auto simp: match_placeholder_def split: list.splits if_splits)
  with assms have "k = takeWhile is_word_char t" "k \<noteq> []"
    by (auto simp: match_placeholder_def Let_def split: if_splits)
  then show ?thesis
    by (auto dest: set_takeWhileD)
qed


lemma interpolate_string_non_word:
  assumes "CHR ''{'' \<notin> set inner" "CHR ''}'' \<notin> set inner" "\<exists>c \<in> set inner. \<not> is_word_char c"
  shows "interpolate_string (pre @ ''{{'' @ inner @ ''}}'' @ post) vars
         = interpolate_string pre vars @ ''{{'' @ inner @ ''}}'' @ interpolate_string post vars"
  using replace_append_open [of "placeholder_value vars" pre "inner @ ''}}'' @ post"]
    replace_non_word [OF assms, of "placeholder_value vars" post]
  by (simp add: interpolate_string_def)







text \<open>
  Claim C10.  Only a placeholder whose identifier is a non-empty run of word characters
  is rewritten.  A pair of double braces around a text without braces that holds some
  other character, as in \<open>{{my-var}}\<close> and \<open>{{ name }}\<close>, is copied unchanged,
  whatever the mapping holds, also an entry for that very text.
\<close>

theorem interpolate_skips_non_word:
  "(CHR ''{'' \<notin> set inner \<longrightarrow> CHR ''}'' \<notin> set inner \<longrightarrow> (\<exists>c \<in> set inner. \<not> is_word_char c) \<longrightarrow>
      interpolate (JStr (pre @ ''{{'' @ inner @ ''}}'' @ post)) vars
        = JStr (interpolate_string pre vars @ ''{{'' @ inner @ ''}}'' @ interpolate_string post vars))
   \<and> (match_placeholder s = Some (k, r) \<longrightarrow>
        k \<noteq> [] \<and> (\<forall>c \<in> set k. is_word_char c) \<and> s = ''{{'' @ k @ ''}}'' @ r)"
  using interpolate_string_non_word [of inner pre post vars]
    match_placeholder_key [of s k r] match_placeholder_decompose [of s k r]
  by simp

theorem interpolate_skips_non_word_witness:
  "interpolate (JStr ''{{my-var}}'') [(''my-var'', ''X''), ('' name '', ''Y'')] = JStr ''{{my-var}}''
   \<and> interpolate (JStr ''{{ name }}'') [(''my-var'', ''X''), ('' name '', ''Y'')] = JStr ''{{ name }}''"
proof -
  have n: "\<exists>c \<in> set ''my-var''. \<not> is_word_char c" "\<exists>c \<in> set '' name ''. \<not> is_word_char c"
    by (simp_all add: is_word_char_def)
  have e: "interpolate_string [] [(''my-var'', ''X''), ('' name '', ''Y'')] = []"
    by (simp add: interpolate_string_def)
  from interpolate_skips_non_word [of "''my-var''" "[]" "[]" "[(''my-var'', ''X''), ('' name '', ''Y'')]"]
    interpolate_skips_non_word [of "'' name ''" "[]" "[]" "[(''my-var'', ''X''), ('' name '', ''Y'')]"]
    n e
  show ?thesis by simp
qed

section \<open>Properties of \<open>generateNegativePayloads\<close>\<close>












section \<open>Properties of the action dispatcher\<close>









section \<open>Properties of the assertions on a response\<close>

lemma and_then_unit [simp]: "and_then (Inr ()) f = f ()" "and_then (Inl e) f = Inl e"
  by (simp_all add: and_then_def)

lemma and_then_Inr: "and_then x Inr = x"
  by (cases x) (simp_all add: and_then_def)

lemma first_failure_append:
  "first_failure (xs @ ys) = and_then (first_failure xs) (\<lambda>_. first_failure ys)"
  by (induction xs) (auto simp: and_then_def split: sum.splits)

lemma first_failure_single: "first_failure [r] = r"
  by (cases r) (simp_all add: and_then_def)

lemma first_failure_reported:
  "reported_failures (first_failure outs) = take 1 (failures_of outs)"
proof (induction outs)
  case Nil
  show ?case by (simp add: reported_failures_def)
next
  case (Cons r outs)
  then show ?case
    by (cases r) (simp_all add: reported_failures_def)
qed

lemma first_failure_pass:
  "(first_failure outs = Inr ()) = (failures_of outs = [])"
proof (induction outs)
  case Nil
  show ?case by simp
next
  case (Cons r outs)
  then show ?case by (cases r) simp_all
qed

lemma assert_path_first_failure:
  assumes "bp_type bp \<noteq> Some []" "bp_regex bp \<noteq> Some []"
  shows "assert_path lib body bp = first_failure (spec_path_outcomes lib body bp)"
proof (cases "path_actual lib body bp")
  case (Inl e)
  then show ?thesis by (simp add: assert_path_def spec_path_outcomes_def)
next
  case (Inr actual)
  have t: "path_type actual bp = spec_path_type actual bp"
    using assms(1) by (simp add: path_type_def spec_path_type_def split: option.splits)
  have r: "path_regex lib actual bp = spec_path_regex lib actual bp"
    using assms(2) by (simp add: path_regex_def spec_path_regex_def split: option.splits)
  have "and_then x (\<lambda>_. Inr ()) = x" for x :: "failure + unit"
    by (cases x) simp_all
  with Inr t r show ?thesis
    by (simp add: assert_path_def spec_path_outcomes_def)
qed

lemma assert_paths_first_failure:
  assumes "\<forall>bp \<in> set bps. bp_type bp \<noteq> Some [] \<and> bp_regex bp \<noteq> Some []"
  shows "assert_paths lib body bps = first_failure (concat (map (spec_path_outcomes lib body) bps))"
  using assms
proof (induction bps)
  case Nil
  show ?case by simp
next
  case (Cons bp bps)
  then show ?case
    by (simp add: first_failure_append assert_path_first_failure)
qed

lemma assert_header_entries_first_failure:
  "assert_header_entries hs entries = first_failure (map (assert_header hs) entries)"
  by (induction entries) simp_all

lemma run_assertions_first_failure:
  assumes "ex_responseTime ex \<noteq> Some 0"
    and "\<forall>bp \<in> set (body_paths ex). bp_type bp \<noteq> Some [] \<and> bp_regex bp \<noteq> Some []"
  shows "run_assertions lib ex rs = first_failure (spec_outcomes lib ex rs)"
proof -
  let ?P = "case ex_bodyPath ex of None \<Rightarrow> []
            | Some bps \<Rightarrow> concat (map (spec_path_outcomes lib (rs_body rs)) bps)"
  let ?H = "case ex_headers ex of None \<Rightarrow> []
            | Some entries \<Rightarrow> map (assert_header (rs_headers rs)) entries"
  have p: "assert_bodyPath lib ex rs = first_failure ?P"
    using assms(2) assert_paths_first_failure [of _ lib "rs_body rs"]
    by (simp add: assert_bodyPath_def body_paths_def split: option.splits)
  have h: "assert_headers ex rs = first_failure ?H"
    by (simp add: assert_headers_def assert_header_entries_first_failure split: option.splits)
  have t: "assert_responseTime ex rs = spec_responseTime ex rs"
    using assms(1) by (simp add: assert_responseTime_def spec_responseTime_def split: option.splits)
  have "first_failure (spec_outcomes lib ex rs) =
        and_then (assert_status ex rs) (\<lambda>_.
        and_then (assert_statusRange ex rs) (\<lambda>_.
        and_then (assert_bodyContains ex rs) (\<lambda>_.
        and_then (assert_bodyExact ex rs) (\<lambda>_.
        and_then (assert_bodySchema lib ex rs) (\<lambda>_.
        and_then (first_failure ?P) (\<lambda>_.
        and_then (first_failure ?H) (\<lambda>_.
        spec_responseTime ex rs)))))))"
    by (simp only: spec_outcomes_def first_failure_append first_failure.simps append_Cons
        append_Nil first_failure_single)
       (simp add: and_then_Inr)
  then show ?thesis
    by (simp only: run_assertions_def p h t)
qed


text \<open>
  Claim C1 says that every present assertion is evaluated and every failing one is
  reported.  The runner uses throwing \<open>expect\<close> calls: with \<open>status: 200\<close> and
  \<open>responseTime: 100\<close> expected, and a response with status 404 after 500 ms, both
  assertions fail and only the one on the status is reported.
\<close>

theorem assertions_later_failure_unreported:
  "reported_failures
     (run_assertions example_lib
        \<lparr>ex_status = Some 200, ex_statusRange = None, ex_bodyContains = None,
           ex_bodyExact = JUndefined, ex_bodySchema = None, ex_bodyPath = None,
           ex_headers = None, ex_responseTime = Some 100\<rparr>
        \<lparr>rs_status = 404, rs_headers = [], rs_body = JNull, rs_elapsed = 500\<rparr>)
   \<noteq> failures_of
     (spec_outcomes example_lib
        \<lparr>ex_status = Some 200, ex_statusRange = None, ex_bodyContains = None,
           ex_bodyExact = JUndefined, ex_bodySchema = None, ex_bodyPath = None,
           ex_headers = None, ex_responseTime = Some 100\<rparr>
        \<lparr>rs_status = 404, rs_headers = [], rs_body = JNull, rs_elapsed = 500\<rparr>)"
  by (simp add: run_assertions_def spec_outcomes_def reported_failures_def assert_status_def
      assert_statusRange_def assert_bodyContains_def assert_bodyExact_def assert_bodySchema_def
      spec_responseTime_def expect_that_def)

text \<open>
  Claim C1, amended.  The assertions of the present keys are evaluated in the order
  status, statusRange, bodyContains, bodyExact, bodySchema, the bodyPath entries (each
  with equals, contains, type, minLength, maxLength, regex), the headers, responseTime.
  The test passes exactly when every one of them passes, and when some fail the run
  reports the first failing one in that order and no other.  This is stated for
  expectations whose \<open>responseTime\<close> is not \<open>0\<close> and whose \<open>type\<close> and \<open>regex\<close>
  strings are not empty.
\<close>

theorem assertions_report_first_failure:
  assumes "ex_responseTime ex \<noteq> Some 0"
    and "\<forall>bp \<in> set (body_paths ex). bp_type bp \<noteq> Some [] \<and> bp_regex bp \<noteq> Some []"
  shows "reported_failures (run_assertions lib ex rs) = take 1 (failures_of (spec_outcomes lib ex rs))
         \<and> (run_assertions lib ex rs = Inr ()) = (failures_of (spec_outcomes lib ex rs) = [])"
  using run_assertions_first_failure [OF assms, of lib rs]
    first_failure_reported [of "spec_outcomes lib ex rs"]
    first_failure_pass [of "spec_outcomes lib ex rs"]
  by simp

theorem assertions_report_first_failure_witness:
  "run_assertions example_lib
     \<lparr>ex_status = Some 200, ex_statusRange = None, ex_bodyContains = None,
        ex_bodyExact = JUndefined, ex_bodySchema = None,
        ex_bodyPath = Some [\<lparr>bp_path = ''data'', bp_equals = JUndefined, bp_contains = JUndefined,
                               bp_type = Some ''object'', bp_minLength = None,
                               bp_maxLength = None, bp_regex = None\<rparr>],
        ex_headers = None, ex_responseTime = None\<rparr>
     \<lparr>rs_status = 200, rs_headers = [], rs_body = JObj [(''data'', JObj [])], rs_elapsed = 12\<rparr>
   = Inr ()
   \<and> reported_failures
     (run_assertions example_lib
        \<lparr>ex_status = Some 200, ex_statusRange = None, ex_bodyContains = None,
           ex_bodyExact = JUndefined, ex_bodySchema = None,
           ex_bodyPath = Some [\<lparr>bp_path = ''data'', bp_equals = JUndefined, bp_contains = JUndefined,
                                  bp_type = Some ''object'', bp_minLength = None,
                                  bp_maxLength = None, bp_regex = None\<rparr>],
           ex_headers = None, ex_responseTime = None\<rparr>
        \<lparr>rs_status = 404, rs_headers = [], rs_body = JNull, rs_elapsed = 12\<rparr>)
   = [Expect CStatus]"
proof -
  let ?ex = "\<lparr>ex_status = Some 200, ex_statusRange = None, ex_bodyContains = None,
        ex_bodyExact = JUndefined, ex_bodySchema = None,
        ex_bodyPath = Some [\<lparr>bp_path = ''data'', bp_equals = JUndefined, bp_contains = JUndefined,
                               bp_type = Some ''object'', bp_minLength = None,
                               bp_maxLength = None, bp_regex = None\<rparr>],
        ex_headers = None, ex_responseTime = None\<rparr>"
  let ?a = "\<lparr>rs_status = 200, rs_headers = [], rs_body = JObj [(''data'', JObj [])], rs_elapsed = 12\<rparr>"
  let ?b = "\<lparr>rs_status = 404, rs_headers = [], rs_body = JNull, rs_elapsed = 12\<rparr>"
  have h1: "ex_responseTime ?ex \<noteq> Some 0" by simp
  have h2: "\<forall>bp \<in> set (body_paths ?ex). bp_type bp \<noteq> Some [] \<and> bp_regex bp \<noteq> Some []"
    by (simp add: body_paths_def)
  have defs: "failures_of (spec_outcomes example_lib ?ex ?a) = []"
    "failures_of (spec_outcomes example_lib ?ex ?b) = [Expect CStatus, Expect (CPathType ''data'')]"
    by (simp_all add: spec_outcomes_def spec_path_outcomes_def path_actual_def deepGet_def
        deepGet_step_def assert_status_def assert_statusRange_def assert_bodyContains_def
        assert_bodyExact_def assert_bodySchema_def spec_responseTime_def expect_that_def
        path_equals_def path_contains_def spec_path_type_def path_minLength_def
        path_maxLength_def spec_path_regex_def js_typeof_def isArray_def prop_get_def
        lookup_def Let_def)
  from assertions_report_first_failure [OF h1 h2, of example_lib ?a]
    assertions_report_first_failure [OF h1 h2, of example_lib ?b] defs
  show ?thesis by simp
qed

end
